theory Spec2Isabelle
  imports Main "HOL-Library.Word" "HOL-Library.Sublist"
begin

section \<open>JavaScript strings\<close>

text \<open>
  A JavaScript string is a sequence of UTF-16 code units. The component
  \<^verbatim>\<open>src/nydasbot/src/Chatbot.js\<close> compares, slices and trims such strings, so
  they are modelled as lists of 16-bit words. \<open>js\<close> embeds an ASCII literal.
\<close>

type_synonym code_unit = "16 word"
type_synonym jsstring = "code_unit list"

definition js :: "string \<Rightarrow> jsstring" where
  "js s = map of_char s"

text \<open>
  \<^verbatim>\<open>String.prototype.trim\<close> removes leading and trailing code units that are
  WhiteSpace or LineTerminator in ECMAScript: TAB, LF, VT, FF, CR, SP, NBSP,
  U+1680, U+2000..U+200A, U+2028, U+2029, U+202F, U+205F, U+3000 and U+FEFF.
\<close>

definition is_trim_space :: "code_unit \<Rightarrow> bool" where
  "is_trim_space c \<longleftrightarrow>
     c = 0x09 \<or> c = 0x0A \<or> c = 0x0B \<or> c = 0x0C \<or> c = 0x0D \<or> c = 0x20 \<or>
     c = 0xA0 \<or> c = 0x1680 \<or> (0x2000 \<le> c \<and> c \<le> 0x200A) \<or>
     c = 0x2028 \<or> c = 0x2029 \<or> c = 0x202F \<or> c = 0x205F \<or> c = 0x3000 \<or>
     c = 0xFEFF"

definition trim :: "jsstring \<Rightarrow> jsstring" where
  "trim s = rev (dropWhile is_trim_space (rev (dropWhile is_trim_space s)))"

text \<open>\<^verbatim>\<open>s.startsWith(p)\<close> and \<^verbatim>\<open>s.substring(n)\<close> (one argument, clamped to the length).\<close>

definition startsWith :: "jsstring \<Rightarrow> jsstring \<Rightarrow> bool" where
  "startsWith s p \<longleftrightarrow> take (length p) s = p"

definition substring :: "jsstring \<Rightarrow> nat \<Rightarrow> jsstring" where
  "substring s n = drop n s"

section \<open>Exceptions\<close>

datatype js_error = SyntaxError | TypeError | InvalidStateError

text \<open>
  A handler either completes or throws; in both cases what it leaves behind
  is part of the result. \<open>(None, st)\<close> is normal completion, \<open>(Some e, st)\<close> is
  exception \<open>e\<close> leaving the handler, each with the component state \<open>st\<close> or,
  for the handler of inbound frames, with the component that remains.
\<close>

section \<open>The WebSocket the component owns\<close>

text \<open>
  The browser's WebSocket object, as far as the component uses it: its
  \<^verbatim>\<open>readyState\<close> and the text messages it has put on the connection.
  \<^verbatim>\<open>send(data)\<close> throws InvalidStateError while the socket is CONNECTING,
  transmits \<open>data\<close> while it is OPEN, and otherwise (CLOSING, CLOSED) returns
  normally without transmitting anything.
\<close>

datatype ready_state = CONNECTING | OPEN | CLOSING | CLOSED

record websocket =
  readyState :: ready_state
  transmitted :: "jsstring list"

definition WebSocket_send :: "websocket \<Rightarrow> jsstring \<Rightarrow> js_error + websocket" where
  "WebSocket_send ws data =
     (case readyState ws of
        CONNECTING \<Rightarrow> Inl InvalidStateError
      | OPEN \<Rightarrow> Inr (ws\<lparr>transmitted := transmitted ws @ [data]\<rparr>)
      | CLOSING \<Rightarrow> Inr ws
      | CLOSED \<Rightarrow> Inr ws)"

section \<open>Serialising the outbound frame\<close>

text \<open>
  \<^verbatim>\<open>JSON.stringify({ input })\<close> for a string \<open>input\<close>: the key and the value are
  quoted by ECMAScript's QuoteJSONString. It walks the string by code points,
  writes the short escapes for backspace, tab, line feed, form feed, carriage
  return, the double quote and the backslash, a backslash, the letter u and
  four lower-case hexadecimal digits for the other control characters and for
  unpaired surrogates, and every other code point as it is.
\<close>

definition hex_digit :: "code_unit \<Rightarrow> code_unit" where
  "hex_digit d = (if d < 10 then 0x30 + d else 0x61 + (d - 10))"

definition UnicodeEscape :: "code_unit \<Rightarrow> jsstring" where
  "UnicodeEscape c =
     [0x5C, 0x75,
      hex_digit (c div 0x1000), hex_digit ((c div 0x100) mod 0x10),
      hex_digit ((c div 0x10) mod 0x10), hex_digit (c mod 0x10)]"

definition is_leading_surrogate :: "code_unit \<Rightarrow> bool" where
  "is_leading_surrogate c \<longleftrightarrow> 0xD800 \<le> c \<and> c \<le> 0xDBFF"

definition is_trailing_surrogate :: "code_unit \<Rightarrow> bool" where
  "is_trailing_surrogate c \<longleftrightarrow> 0xDC00 \<le> c \<and> c \<le> 0xDFFF"

fun quote_units :: "jsstring \<Rightarrow> jsstring" where
  "quote_units [] = []"
| "quote_units (c # cs) =
     (if c = 0x08 then [0x5C, 0x62] @ quote_units cs
      else if c = 0x09 then [0x5C, 0x74] @ quote_units cs
      else if c = 0x0A then [0x5C, 0x6E] @ quote_units cs
      else if c = 0x0C then [0x5C, 0x66] @ quote_units cs
      else if c = 0x0D then [0x5C, 0x72] @ quote_units cs
      else if c = 0x22 then [0x5C, 0x22] @ quote_units cs
      else if c = 0x5C then [0x5C, 0x5C] @ quote_units cs
      else if c < 0x20 then UnicodeEscape c @ quote_units cs
      else if is_leading_surrogate c then
        (case cs of
           [] \<Rightarrow> UnicodeEscape c
         | d # ds \<Rightarrow>
             if is_trailing_surrogate d then c # d # quote_units ds
             else UnicodeEscape c @ quote_units cs)
      else if is_trailing_surrogate c then UnicodeEscape c @ quote_units cs
      else c # quote_units cs)"

definition QuoteJSONString :: "jsstring \<Rightarrow> jsstring" where
  "QuoteJSONString s = [0x22] @ quote_units s @ [0x22]"

definition JSON_stringify_input :: "jsstring \<Rightarrow> jsstring" where
  "JSON_stringify_input v =
     js ''{'' @ QuoteJSONString (js ''input'') @ js '':'' @ QuoteJSONString v @ js ''}''"

section \<open>Component state and the send handler\<close>

text \<open>
  The component's three pieces of state: \<^verbatim>\<open>input\<close> (the draft), \<^verbatim>\<open>messages\<close>
  (the transcript, one string per turn) and the \<^verbatim>\<open>websocket\<close> ref, which is
  \<^verbatim>\<open>null\<close> until the mount effect has run.
\<close>

record chat_app =
  input :: jsstring
  messages :: "jsstring list"
  websocket :: "websocket option"

definition ChatApp_initial :: chat_app where
  "ChatApp_initial = \<lparr>input = [], messages = [], websocket = None\<rparr>"

definition ChatApp_mounted :: chat_app where
  "ChatApp_mounted =
     ChatApp_initial\<lparr>websocket := Some \<lparr>readyState = CONNECTING, transmitted = []\<rparr>\<rparr>"

definition onChange :: "chat_app \<Rightarrow> jsstring \<Rightarrow> chat_app" where
  "onChange st v = st\<lparr>input := v\<rparr>"

text \<open>
  \<^verbatim>\<open>sendMessage\<close> (lines 43 to 58). The guard tests \<^verbatim>\<open>input.trim()\<close> for
  truthiness, that is for being non-empty; the frame and the stored turn are
  built from \<^verbatim>\<open>input\<close> itself. An exception of \<^verbatim>\<open>send\<close> leaves the handler
  before \<^verbatim>\<open>setMessages\<close> and \<^verbatim>\<open>setInput\<close> run.
\<close>

definition sendMessage :: "chat_app \<Rightarrow> js_error option \<times> chat_app" where
  "sendMessage st =
     (if trim (input st) \<noteq> [] then
        (let message = JSON_stringify_input (input st) in
         case websocket st of
           None \<Rightarrow> (Some TypeError, st)
         | Some ws \<Rightarrow>
             (case WebSocket_send ws message of
                Inl e \<Rightarrow> (Some e, st)
              | Inr ws' \<Rightarrow>
                  (None, st\<lparr>websocket := Some ws',
                             messages := messages st @ [js ''You: '' @ input st],
                             input := []\<rparr>)))
      else (None, st))"

section \<open>Parsing the inbound frame\<close>

text \<open>
  The values \<^verbatim>\<open>JSON.parse\<close> can return, and \<^verbatim>\<open>undefined\<close> for the read of a
  property that is not there. A number keeps the text of its literal; an
  object keeps its members in the order of the text, duplicates included.
\<close>

datatype jsvalue =
    JUndefined | JNull | JBool bool | JNumber jsstring | JString jsstring
  | JArray "jsvalue list" | JObject "(jsstring \<times> jsvalue) list"

text \<open>
  \<^verbatim>\<open>JSON.parse\<close> follows the JSON grammar of ECMA-404 by recursive descent:
  white space is TAB, LF, CR and SP; a string is quoted, has no raw control
  character, and after a backslash takes one of the double quote, the
  backslash, the slash, b, f, n, r, t, or u with four hexadecimal digits; a
  number is an optional minus sign, an integer part without leading zero, an
  optional fraction and an optional exponent. The descent into arrays and
  objects is bounded by a counter; \<open>Exhausted\<close> is the counter running out,
  which the lemma \<open>JSON_parse_fuel\<close> below shows never happens from
  \<open>JSON_parse\<close>.
\<close>

datatype 'a parsed = Parsed 'a jsstring | Malformed | Exhausted

definition is_json_ws :: "code_unit \<Rightarrow> bool" where
  "is_json_ws c \<longleftrightarrow> c = 0x09 \<or> c = 0x0A \<or> c = 0x0D \<or> c = 0x20"

definition skip_ws :: "jsstring \<Rightarrow> jsstring" where
  "skip_ws cs = dropWhile is_json_ws cs"

definition is_digit :: "code_unit \<Rightarrow> bool" where
  "is_digit c \<longleftrightarrow> 0x30 \<le> c \<and> c \<le> 0x39"

definition hex_value :: "code_unit \<Rightarrow> code_unit option" where
  "hex_value c =
     (if 0x30 \<le> c \<and> c \<le> 0x39 then Some (c - 0x30)
      else if 0x41 \<le> c \<and> c \<le> 0x46 then Some (c - 0x41 + 10)
      else if 0x61 \<le> c \<and> c \<le> 0x66 then Some (c - 0x61 + 10)
      else None)"

definition hex4 :: "code_unit \<Rightarrow> code_unit \<Rightarrow> code_unit \<Rightarrow> code_unit \<Rightarrow> code_unit option" where
  "hex4 a b c d =
     (case (hex_value a, hex_value b, hex_value c, hex_value d) of
        (Some p, Some q, Some r, Some s) \<Rightarrow> Some (p * 0x1000 + q * 0x100 + r * 0x10 + s)
      | _ \<Rightarrow> None)"

definition escape_unit :: "code_unit \<Rightarrow> code_unit option" where
  "escape_unit e =
     (if e = 0x22 then Some 0x22
      else if e = 0x5C then Some 0x5C
      else if e = 0x2F then Some 0x2F
      else if e = 0x62 then Some 0x08
      else if e = 0x66 then Some 0x0C
      else if e = 0x6E then Some 0x0A
      else if e = 0x72 then Some 0x0D
      else if e = 0x74 then Some 0x09
      else None)"

fun scan_string :: "jsstring \<Rightarrow> (jsstring \<times> jsstring) option" where
  "scan_string [] = None"
| "scan_string (c # cs) =
     (if c = 0x22 then Some ([], cs)
      else if c = 0x5C then
        (case cs of
           [] \<Rightarrow> None
         | e # es \<Rightarrow>
             if e = 0x75 then
               (case es of
                  h1 # h2 # h3 # h4 # r \<Rightarrow>
                    (case hex4 h1 h2 h3 h4 of
                       None \<Rightarrow> None
                     | Some u \<Rightarrow> map_option (\<lambda>(s, r'). (u # s, r')) (scan_string r))
                | _ \<Rightarrow> None)
             else
               (case escape_unit e of
                  None \<Rightarrow> None
                | Some u \<Rightarrow> map_option (\<lambda>(s, r'). (u # s, r')) (scan_string es)))
      else if c < 0x20 then None
      else map_option (\<lambda>(s, r'). (c # s, r')) (scan_string cs))"

definition scan_fraction :: "jsstring \<Rightarrow> (jsstring \<times> jsstring) option" where
  "scan_fraction cs =
     (case cs of
        [] \<Rightarrow> Some ([], cs)
      | c # r \<Rightarrow>
          if c = 0x2E then
            (if takeWhile is_digit r = [] then None
             else Some (c # takeWhile is_digit r, dropWhile is_digit r))
          else Some ([], cs))"

definition scan_exponent :: "jsstring \<Rightarrow> (jsstring \<times> jsstring) option" where
  "scan_exponent cs =
     (case cs of
        [] \<Rightarrow> Some ([], cs)
      | c # r \<Rightarrow>
          if c = 0x65 \<or> c = 0x45 then
            (let (sg, r') =
                   (case r of
                      [] \<Rightarrow> ([], r)
                    | s # t \<Rightarrow> if s = 0x2B \<or> s = 0x2D then ([s], t) else ([], r))
             in if takeWhile is_digit r' = [] then None
                else Some (c # sg @ takeWhile is_digit r', dropWhile is_digit r'))
          else Some ([], cs))"

definition scan_number :: "jsstring \<Rightarrow> (jsstring \<times> jsstring) option" where
  "scan_number cs =
     (let (sg, r0) =
            (case cs of
               [] \<Rightarrow> ([], cs)
             | c # r \<Rightarrow> if c = 0x2D then ([c], r) else ([], cs))
      in case r0 of
           [] \<Rightarrow> None
         | d # r1 \<Rightarrow>
             if \<not> is_digit d then None
             else
               (let (ip, r2) =
                      (if d = 0x30 then ([d], r1)
                       else (d # takeWhile is_digit r1, dropWhile is_digit r1))
                in case scan_fraction r2 of
                     None \<Rightarrow> None
                   | Some (fp, r3) \<Rightarrow>
                       (case scan_exponent r3 of
                          None \<Rightarrow> None
                        | Some (ep, r4) \<Rightarrow> Some (sg @ ip @ fp @ ep, r4))))"

fun parse_value :: "nat \<Rightarrow> jsstring \<Rightarrow> jsvalue parsed"
  and parse_elements :: "nat \<Rightarrow> jsstring \<Rightarrow> jsvalue list \<Rightarrow> jsvalue parsed"
  and parse_members :: "nat \<Rightarrow> jsstring \<Rightarrow> (jsstring \<times> jsvalue) list \<Rightarrow> jsvalue parsed"
where
  "parse_value 0 cs = Exhausted"
| "parse_value (Suc n) cs =
     (case skip_ws cs of
        [] \<Rightarrow> Malformed
      | c # r \<Rightarrow>
          if c = 0x5B then
            (case skip_ws r of
               [] \<Rightarrow> Malformed
             | d # r' \<Rightarrow> if d = 0x5D then Parsed (JArray []) r' else parse_elements n r [])
          else if c = 0x7B then
            (case skip_ws r of
               [] \<Rightarrow> Malformed
             | d # r' \<Rightarrow> if d = 0x7D then Parsed (JObject []) r' else parse_members n r [])
          else if c = 0x22 then
            (case scan_string r of
               None \<Rightarrow> Malformed
             | Some (s, r') \<Rightarrow> Parsed (JString s) r')
          else if take 4 (c # r) = js ''null'' then Parsed JNull (drop 4 (c # r))
          else if take 4 (c # r) = js ''true'' then Parsed (JBool True) (drop 4 (c # r))
          else if take 5 (c # r) = js ''false'' then Parsed (JBool False) (drop 5 (c # r))
          else
            (case scan_number (c # r) of
               None \<Rightarrow> Malformed
             | Some (l, r') \<Rightarrow> Parsed (JNumber l) r'))"
| "parse_elements 0 cs acc = Exhausted"
| "parse_elements (Suc n) cs acc =
     (case parse_value n cs of
        Exhausted \<Rightarrow> Exhausted
      | Malformed \<Rightarrow> Malformed
      | Parsed v r \<Rightarrow>
          (case skip_ws r of
             [] \<Rightarrow> Malformed
           | d # r' \<Rightarrow>
               if d = 0x2C then parse_elements n r' (acc @ [v])
               else if d = 0x5D then Parsed (JArray (acc @ [v])) r'
               else Malformed))"
| "parse_members 0 cs acc = Exhausted"
| "parse_members (Suc n) cs acc =
     (case skip_ws cs of
        [] \<Rightarrow> Malformed
      | q # r \<Rightarrow>
          if q \<noteq> 0x22 then Malformed
          else
            (case scan_string r of
               None \<Rightarrow> Malformed
             | Some (k, r1) \<Rightarrow>
                 (case skip_ws r1 of
                    [] \<Rightarrow> Malformed
                  | c # r2 \<Rightarrow>
                      if c \<noteq> 0x3A then Malformed
                      else
                        (case parse_value n r2 of
                           Exhausted \<Rightarrow> Exhausted
                         | Malformed \<Rightarrow> Malformed
                         | Parsed v r3 \<Rightarrow>
                             (case skip_ws r3 of
                                [] \<Rightarrow> Malformed
                              | d # r4 \<Rightarrow>
                                  if d = 0x2C then parse_members n r4 (acc @ [(k, v)])
                                  else if d = 0x7D then Parsed (JObject (acc @ [(k, v)])) r4
                                  else Malformed)))))"

definition JSON_parse :: "jsstring \<Rightarrow> js_error + jsvalue" where
  "JSON_parse text =
     (case parse_value (Suc (2 * length text)) text of
        Parsed v r \<Rightarrow> if skip_ws r = [] then Inr v else Inl SyntaxError
      | Malformed \<Rightarrow> Inl SyntaxError
      | Exhausted \<Rightarrow> Inl SyntaxError)"

section \<open>The inbound handler\<close>

text \<open>
  What the handler does with the parsed value: it reads \<^verbatim>\<open>data.answer\<close>, tests
  it for truthiness and, inside a template literal, converts it to a string.

  The double a number literal denotes, and with it whether the number is zero
  and how it prints, is floating-point arithmetic; both are left to the two
  functions of \<open>number_ops\<close>, which receive the literal.
\<close>

record number_ops =
  num_truthy :: "jsstring \<Rightarrow> bool"
  num_string :: "jsstring \<Rightarrow> jsstring"

text \<open>
  \<^verbatim>\<open>data.answer\<close>: a TypeError on \<^verbatim>\<open>null\<close>; on an object the member of that name
  (the last one, where the text repeats the key); \<^verbatim>\<open>undefined\<close> on an object
  without it and on a string, number, boolean or array.
\<close>

fun get_answer :: "jsvalue \<Rightarrow> js_error + jsvalue" where
  "get_answer JUndefined = Inl TypeError"
| "get_answer JNull = Inl TypeError"
| "get_answer (JObject kvs) =
     Inr (case map_of (rev kvs) (js ''answer'') of None \<Rightarrow> JUndefined | Some v \<Rightarrow> v)"
| "get_answer (JBool b) = Inr JUndefined"
| "get_answer (JNumber l) = Inr JUndefined"
| "get_answer (JString s) = Inr JUndefined"
| "get_answer (JArray vs) = Inr JUndefined"

fun ToBoolean :: "number_ops \<Rightarrow> jsvalue \<Rightarrow> bool" where
  "ToBoolean N JUndefined = False"
| "ToBoolean N JNull = False"
| "ToBoolean N (JBool b) = b"
| "ToBoolean N (JNumber l) = num_truthy N l"
| "ToBoolean N (JString s) = (s \<noteq> [])"
| "ToBoolean N (JArray vs) = True"
| "ToBoolean N (JObject kvs) = True"

text \<open>
  The string conversion of the template literal. An array joins the
  conversions of its elements with commas, \<^verbatim>\<open>null\<close> elements giving the empty
  string. An object gives \<^verbatim>\<open>[object Object]\<close>, unless it has a member named
  \<^verbatim>\<open>toString\<close>: that member hides \<^verbatim>\<open>Object.prototype.toString\<close> and is not
  callable, and the conversion ends in a TypeError.
\<close>

fun ToString :: "number_ops \<Rightarrow> jsvalue \<Rightarrow> js_error + jsstring"
  and join_elements :: "number_ops \<Rightarrow> jsvalue list \<Rightarrow> js_error + jsstring"
where
  "ToString N JUndefined = Inr (js ''undefined'')"
| "ToString N JNull = Inr (js ''null'')"
| "ToString N (JBool b) = Inr (if b then js ''true'' else js ''false'')"
| "ToString N (JNumber l) = Inr (num_string N l)"
| "ToString N (JString s) = Inr s"
| "ToString N (JArray vs) = join_elements N vs"
| "ToString N (JObject kvs) =
     (if map_of kvs (js ''toString'') \<noteq> None then Inl TypeError
      else Inr (js ''[object Object]''))"
| "join_elements N [] = Inr []"
| "join_elements N (v # vs) =
     (case (if v = JNull \<or> v = JUndefined then Inr [] else ToString N v) of
        Inl e \<Rightarrow> Inl e
      | Inr s \<Rightarrow>
          if vs = [] then Inr s
          else
            (case join_elements N vs of
               Inl e \<Rightarrow> Inl e
             | Inr t \<Rightarrow> Inr (s @ js '','' @ t)))"

text \<open>
  After a callback React renders the component again. Where rendering throws,
  React, which finds no error boundary in this application, unmounts the
  component: its state is gone and nothing of it is shown any more.
\<close>

datatype component = Mounted chat_app | Unmounted

text \<open>
  \<^verbatim>\<open>websocket.current.onmessage\<close> (lines 19 to 27), for the text of a frame.
  Nothing in the handler catches: an exception of \<^verbatim>\<open>JSON.parse\<close> or of the
  property read leaves the handler before \<^verbatim>\<open>setMessages\<close> is reached, and the
  component keeps its state. The template literal of line 25 stands inside
  the function handed to \<^verbatim>\<open>setMessages\<close>, which React runs when it renders:
  the handler itself returns normally, and where the string conversion throws,
  rendering throws and the component is unmounted.
\<close>

definition onmessage :: "number_ops \<Rightarrow> chat_app \<Rightarrow> jsstring \<Rightarrow> js_error option \<times> component" where
  "onmessage N st event_data =
     (case JSON_parse event_data of
        Inl e \<Rightarrow> (Some e, Mounted st)
      | Inr data \<Rightarrow>
          (case get_answer data of
             Inl e \<Rightarrow> (Some e, Mounted st)
           | Inr answer \<Rightarrow>
               if ToBoolean N answer then
                 (case ToString N answer of
                    Inl e \<Rightarrow> (None, Unmounted)
                  | Inr s \<Rightarrow> (None, Mounted (st\<lparr>messages := messages st @ [s]\<rparr>)))
               else (None, Mounted st)))"

section \<open>Rendering\<close>

text \<open>
  \<^verbatim>\<open>renderMessageAsMarkdown\<close> (lines 68 to 93) returns one \<^verbatim>\<open>div\<close>; the record
  keeps its class, its key, the two style properties and the markup set as its
  inner HTML. \<^verbatim>\<open>marked\<close> and \<^verbatim>\<open>DOMPurify.sanitize\<close> are libraries outside the
  repository and enter as the functions \<open>marked\<close> and \<open>sanitize\<close>.
\<close>

record element =
  className :: jsstring
  key :: jsstring
  margin :: jsstring
  alignSelf :: jsstring
  innerHTML :: jsstring

definition renderMessageAsMarkdown ::
  "(jsstring \<Rightarrow> jsstring) \<Rightarrow> (jsstring \<Rightarrow> jsstring) \<Rightarrow> jsstring \<Rightarrow> element" where
  "renderMessageAsMarkdown marked sanitize msg =
     (let isUserMessage = startsWith msg (js ''You: '');
          displayMessage =
            (if isUserMessage then js ''<b>You:</b><br />'' @ substring msg 5
             else js ''<b>Nydas:</b><br />'' @ msg);
          rawMarkup = marked displayMessage;
          sanitizedMarkup = sanitize rawMarkup
      in \<lparr>className = (if isUserMessage then js ''box3 sb13'' else js ''box3 sb14''),
          key = (if isUserMessage then js ''user-'' @ displayMessage
                 else js ''server-'' @ displayMessage),
          margin = (if isUserMessage then js ''5px 15px'' else js ''5px 0 5px 15px''),
          alignSelf = (if isUserMessage then js ''flex-end'' else js ''flex-start''),
          innerHTML = sanitizedMarkup\<rparr>)"

text \<open>The message area (line 112): the transcript reversed, each entry rendered.\<close>

definition ChatApp_view ::
  "(jsstring \<Rightarrow> jsstring) \<Rightarrow> (jsstring \<Rightarrow> jsstring) \<Rightarrow> chat_app \<Rightarrow> element list" where
  "ChatApp_view marked sanitize st =
     map (renderMessageAsMarkdown marked sanitize) (rev (messages st))"

section \<open>The parser's counter is large enough\<close>

text \<open>
  Every scanner returns a rest shorter than its input, so a descent that starts
  with a counter above twice the length of the text ends before the counter
  does: \<open>JSON_parse\<close> reports a syntax error only for a text outside the grammar.
\<close>

lemma length_skip_ws: "length (skip_ws cs) \<le> length cs"
  by (simp add: skip_ws_def length_dropWhile_le)

lemma skip_ws_Cons_length: "skip_ws cs = c # r \<Longrightarrow> length r < length cs"
  using length_skip_ws [of cs] by simp

lemma scan_string_shorter: "scan_string cs = Some (s, r) \<Longrightarrow> length r < length cs"
proof (induction cs arbitrary: s r rule: scan_string.induct)
  case 1
  then show ?case by simp
next
  case (2 c cs)
  then show ?case
    by (fastforce split: if_splits list.splits option.splits)
qed

lemma scan_fraction_shorter: "scan_fraction cs = Some (l, r) \<Longrightarrow> length r \<le> length cs"
  using length_dropWhile_le [of is_digit "tl cs"]
  by (auto simp: scan_fraction_def split: list.splits if_splits)

lemma scan_exponent_shorter: "scan_exponent cs = Some (l, r) \<Longrightarrow> length r \<le> length cs"
  using length_dropWhile_le [of is_digit "tl cs"] length_dropWhile_le [of is_digit "tl (tl cs)"]
  by (auto simp: scan_exponent_def Let_def split: list.splits if_splits)

lemma scan_number_shorter:
  assumes "scan_number cs = Some (l, r)"
  shows "length r < length cs"
proof -
  obtain sg r0 where r0: "(case cs of [] \<Rightarrow> ([], cs) | c # t \<Rightarrow> if c = 0x2D then ([c], t) else ([], cs)) = (sg, r0)"
    by (cases "(case cs of [] \<Rightarrow> ([], cs) | c # t \<Rightarrow> if c = 0x2D then ([c], t) else ([], cs))") auto
  then have l0: "length r0 \<le> length cs"
    by (auto split: list.splits if_splits)
  from assms r0 obtain d r1 where d: "r0 = d # r1"
    by (cases r0) (auto simp: scan_number_def)
  obtain ip r2 where r2: "(if d = 0x30 then ([d], r1) else (d # takeWhile is_digit r1, dropWhile is_digit r1)) = (ip, r2)"
    by (cases "(if d = 0x30 then ([d], r1) else (d # takeWhile is_digit r1, dropWhile is_digit r1))") auto
  then have l2: "length r2 \<le> length r1"
    using length_dropWhile_le [of is_digit r1] by (auto split: if_splits)
  from assms r0 d r2 obtain fp r3 ep where
    f: "scan_fraction r2 = Some (fp, r3)" and e: "scan_exponent r3 = Some (ep, r)"
    by (auto simp: scan_number_def split: if_splits option.splits)
  from scan_fraction_shorter [OF f] scan_exponent_shorter [OF e] l2 l0 d
  show ?thesis by simp
qed

lemma parse_shorter:
  "(parse_value n cs = Parsed v r \<longrightarrow> length r < length cs) \<and>
   (parse_elements n cs acc = Parsed v r \<longrightarrow> length r < length cs) \<and>
   (parse_members n cs kvs = Parsed v r \<longrightarrow> length r < length cs)"
proof (induction n arbitrary: cs acc kvs v r)
  case 0
  show ?case by simp
next
  case (Suc n)
  have V: "parse_value n xs = Parsed w t \<Longrightarrow> length t < length xs" for xs w t
    using Suc.IH by blast
  have E: "parse_elements n xs a = Parsed w t \<Longrightarrow> length t < length xs" for xs a w t
    using Suc.IH by blast
  have M: "parse_members n xs a = Parsed w t \<Longrightarrow> length t < length xs" for xs a w t
    using Suc.IH by blast
  have 1: "parse_value (Suc n) cs = Parsed v r \<Longrightarrow> length r < length cs"
    using length_skip_ws [of cs]
    by (auto split: list.splits if_splits option.splits
             dest!: E M skip_ws_Cons_length scan_string_shorter scan_number_shorter)
  have 2: "parse_elements (Suc n) cs acc = Parsed v r \<Longrightarrow> length r < length cs"
    by (auto split: list.splits if_splits parsed.splits
             dest!: V E skip_ws_Cons_length)
  have 3: "parse_members (Suc n) cs kvs = Parsed v r \<Longrightarrow> length r < length cs"
    by (auto split: list.splits if_splits parsed.splits option.splits
             dest!: V M skip_ws_Cons_length scan_string_shorter)
  from 1 2 3 show ?case by blast
qed

lemma parse_fuel:
  "(2 * length cs < n \<longrightarrow> parse_value n cs \<noteq> Exhausted) \<and>
   (2 * length cs + 1 < n \<longrightarrow> parse_elements n cs acc \<noteq> Exhausted) \<and>
   (2 * length cs + 1 < n \<longrightarrow> parse_members n cs kvs \<noteq> Exhausted)"
proof (induction n arbitrary: cs acc kvs)
  case 0
  show ?case by simp
next
  case (Suc n)
  have V: "2 * length xs < n \<Longrightarrow> parse_value n xs \<noteq> Exhausted" for xs
    using Suc.IH by blast
  have E: "2 * length xs + 1 < n \<Longrightarrow> parse_elements n xs a \<noteq> Exhausted" for xs a
    using Suc.IH by blast
  have M: "2 * length xs + 1 < n \<Longrightarrow> parse_members n xs a \<noteq> Exhausted" for xs a
    using Suc.IH by blast
  have S: "parse_value n xs = Parsed w t \<Longrightarrow> length t < length xs" for xs w t
    using parse_shorter by blast
  have 1: "parse_value (Suc n) cs \<noteq> Exhausted" if "2 * length cs < Suc n"
  proof (cases "skip_ws cs")
    case Nil
    then show ?thesis by simp
  next
    case (Cons c t)
    then have "length t < length cs" by (rule skip_ws_Cons_length)
    with that have "2 * length t + 1 < n" by simp
    with Cons show ?thesis
      by (auto split: list.splits option.splits simp: E M)
  qed
  have 2: "parse_elements (Suc n) cs acc \<noteq> Exhausted" if "2 * length cs + 1 < Suc n"
  proof (cases "parse_value n cs")
    case (Parsed w t)
    show ?thesis
    proof (cases "skip_ws t")
      case Nil
      with Parsed show ?thesis by simp
    next
      case (Cons d t')
      from S [OF Parsed] skip_ws_Cons_length [OF Cons] that
      have "2 * length t' + 1 < n" by simp
      with Parsed Cons show ?thesis by (simp add: E)
    qed
  next
    case Malformed
    then show ?thesis by simp
  next
    case Exhausted
    with V [of cs] that show ?thesis by simp
  qed
  have 3: "parse_members (Suc n) cs kvs \<noteq> Exhausted" if "2 * length cs + 1 < Suc n"
  proof -
    have "parse_members (Suc n) cs kvs = Exhausted \<Longrightarrow> False"
    proof -
      assume ex: "parse_members (Suc n) cs kvs = Exhausted"
      then obtain q t where q: "skip_ws cs = q # t"
        by (cases "skip_ws cs") auto
      with ex obtain k r1 where k: "scan_string t = Some (k, r1)" and q22: "q = 0x22"
        by (cases "scan_string t") (auto split: if_splits)
      with ex q obtain c r2 where c: "skip_ws r1 = c # r2" and c3a: "c = 0x3A"
        by (cases "skip_ws r1") (auto split: if_splits)
      have l2: "length r2 < length cs"
        using skip_ws_Cons_length [OF q] scan_string_shorter [OF k] skip_ws_Cons_length [OF c]
        by simp
      show False
      proof (cases "parse_value n r2")
        case (Parsed w r3)
        from ex q k q22 c c3a Parsed obtain d r4 where d: "skip_ws r3 = d # r4"
          by (cases "skip_ws r3") auto
        from S [OF Parsed] skip_ws_Cons_length [OF d] l2 that
        have "2 * length r4 + 1 < n" by simp
        from M [OF this] ex q k q22 c c3a Parsed d show False
          by (auto split: if_splits)
      next
        case Malformed
        with ex q k q22 c c3a show False by simp
      next
        case Exhausted
        moreover from l2 that have "2 * length r2 < n" by simp
        ultimately show False using V by blast
      qed
    qed
    then show ?thesis by blast
  qed
  from 1 2 3 show ?case by blast
qed

lemma JSON_parse_fuel: "parse_value (Suc (2 * length s)) s \<noteq> Exhausted"
  using parse_fuel [of s "Suc (2 * length s)"] by simp

section \<open>Trimming\<close>

lemma dropWhile_all_iff: "(\<forall>x\<in>set (dropWhile P xs). P x) \<longleftrightarrow> (\<forall>x\<in>set xs. P x)"
proof
  assume a: "\<forall>x\<in>set (dropWhile P xs). P x"
  have "dropWhile P xs = []"
  proof (rule ccontr)
    assume n: "dropWhile P xs \<noteq> []"
    then have "\<not> P (hd (dropWhile P xs))" by (rule hd_dropWhile)
    moreover from n have "hd (dropWhile P xs) \<in> set (dropWhile P xs)" by simp
    ultimately show False using a by blast
  qed
  then show "\<forall>x\<in>set xs. P x" by simp
next
  assume "\<forall>x\<in>set xs. P x"
  then show "\<forall>x\<in>set (dropWhile P xs). P x" by (meson set_dropWhileD)
qed

lemma trim_Nil_iff: "trim s = [] \<longleftrightarrow> list_all is_trim_space s"
  by (simp add: trim_def dropWhile_all_iff list_all_iff)

section \<open>Submitting a blank draft\<close>

text \<open>
  C5. A draft that is empty or consists only of white space (the code units
  \<^verbatim>\<open>trim\<close> removes) makes \<^verbatim>\<open>sendMessage\<close> a no-op: it completes without an
  exception and leaves the whole component state as it was, so no turn is
  appended, nothing is handed to the socket and the draft stays.
\<close>

theorem sendMessage_blank:
  assumes "list_all is_trim_space (input st)"
  shows "sendMessage st = (None, st)"
  using assms by (simp add: sendMessage_def trim_Nil_iff)

theorem sendMessage_blank_witness:
  "list_all is_trim_space [] \<and>
   sendMessage (ChatApp_mounted\<lparr>input := []\<rparr>) = (None, ChatApp_mounted\<lparr>input := []\<rparr>) \<and>
   list_all is_trim_space (js ''   '') \<and>
   sendMessage (ChatApp_mounted\<lparr>input := js ''   ''\<rparr>) =
     (None, ChatApp_mounted\<lparr>input := js ''   ''\<rparr>)"
proof -
  have e: "list_all is_trim_space (input (ChatApp_mounted\<lparr>input := []\<rparr>))"
    by simp
  have b: "list_all is_trim_space (input (ChatApp_mounted\<lparr>input := js ''   ''\<rparr>))"
    by (simp add: js_def is_trim_space_def)
  from sendMessage_blank [OF e] sendMessage_blank [OF b] e b show ?thesis by simp
qed

section \<open>The outbound frame can be read back\<close>

text \<open>
  Parsing what \<^verbatim>\<open>JSON.stringify({ input })\<close> wrote gives back an object whose only
  member is \<^verbatim>\<open>input\<close> with the very string that was serialised, whatever code
  units it holds.
\<close>

lemma unat16: "unat (c :: code_unit) < 65536"
  using unsigned_less [of c, where ?'a = nat] by simp

lemma radix16_combine:
  fixes n :: nat
  assumes "n = q1 * 16 + d0" "q1 = q2 * 16 + d1" "q2 = q3 * 16 + d2"
  shows "q3 * 4096 + d2 * 256 + d1 * 16 + d0 = n"
  using assms by simp

lemma nat_nibbles:
  fixes n :: nat
  shows "n div 4096 * 4096 + n div 256 mod 16 * 256 + n div 16 mod 16 * 16 + n mod 16 = n"
proof -
  have a: "n = n div 16 * 16 + n mod 16" by simp
  have "n div 16 div 16 = n div 256" by (simp add: div_mult2_eq [symmetric])
  then have b: "n div 16 = n div 256 * 16 + n div 16 mod 16"
    using div_mult_mod_eq [of "n div 16" 16] by simp
  have "n div 256 div 16 = n div 4096" by (simp add: div_mult2_eq [symmetric])
  then have c: "n div 256 = n div 4096 * 16 + n div 256 mod 16"
    using div_mult_mod_eq [of "n div 256" 16] by simp
  show ?thesis by (rule radix16_combine [OF a b c])
qed

lemma nibbles_sum:
  fixes c :: code_unit
  shows "(c div 0x1000) * 0x1000 + ((c div 0x100) mod 0x10) * 0x100 + ((c div 0x10) mod 0x10) * 0x10 + c mod 0x10 = c"
proof -
  let ?n = "unat c"
  have "unat ((c div 0x1000) * 0x1000 + ((c div 0x100) mod 0x10) * 0x100 + ((c div 0x10) mod 0x10) * 0x10 + c mod 0x10)
      = (?n div 4096 * 4096 + ?n div 256 mod 16 * 256 + ?n div 16 mod 16 * 16 + ?n mod 16) mod 65536"
    by (simp add: unat_word_ariths unat_div unat_mod mod_simps mod_mod_cancel)
  also have "\<dots> = ?n" using unat16 [of c] by (simp only: nat_nibbles mod_less)
  finally show ?thesis by (simp add: word_unat_eq_iff)
qed

lemma nibbles_lt:
  fixes c :: code_unit
  shows "c div 0x1000 < 16" "(c div 0x100) mod 0x10 < 16" "(c div 0x10) mod 0x10 < 16" "c mod 0x10 < 16"
  using unat16 [of c]
  by (simp_all add: word_less_nat_alt unat_div unat_mod div_less_iff_less_mult)

lemma small_word_cases:
  fixes d :: code_unit
  assumes "d < 16"
  shows "d \<in> {0,1,2,3,4,5,6,7,8,9,10,11,12,13,14,15}"
proof -
  from assms have "unat d < 16" by (simp add: word_less_nat_alt)
  then have "unat d = 0 \<or> unat d = 1 \<or> unat d = 2 \<or> unat d = 3 \<or> unat d = 4 \<or>
      unat d = 5 \<or> unat d = 6 \<or> unat d = 7 \<or> unat d = 8 \<or> unat d = 9 \<or> unat d = 10 \<or>
      unat d = 11 \<or> unat d = 12 \<or> unat d = 13 \<or> unat d = 14 \<or> unat d = 15"
    by arith
  then show ?thesis
    by (simp add: word_unat_eq_iff)
qed

lemma hex_value_hex_digit:
  assumes "d < 16"
  shows "hex_value (hex_digit d) = Some d"
  using small_word_cases [OF assms]
  by (elim insertE emptyE; simp add: hex_value_def hex_digit_def)

lemma hex4_UnicodeEscape:
  "hex4 (hex_digit (c div 0x1000)) (hex_digit ((c div 0x100) mod 0x10))
        (hex_digit ((c div 0x10) mod 0x10)) (hex_digit (c mod 0x10)) = Some c"
  by (simp add: hex4_def hex_value_hex_digit nibbles_lt nibbles_sum)

lemma scan_string_raw:
  assumes "c \<noteq> 0x22" "c \<noteq> 0x5C" "\<not> c < 0x20"
  shows "scan_string (c # r) = map_option (\<lambda>(s, r'). (c # s, r')) (scan_string r)"
  using assms by simp

lemma scan_string_escape:
  assumes "escape_unit e = Some u" "e \<noteq> 0x75"
  shows "scan_string (0x5C # e # r) = map_option (\<lambda>(s, r'). (u # s, r')) (scan_string r)"
  using assms by simp

lemma scan_string_UnicodeEscape:
  "scan_string (UnicodeEscape c @ r) = map_option (\<lambda>(s, r'). (c # s, r')) (scan_string r)"
  by (simp add: UnicodeEscape_def hex4_UnicodeEscape)

lemma surrogate_is_raw:
  fixes c :: code_unit
  assumes "0xD800 \<le> c"
  shows "c \<noteq> 0x22" "c \<noteq> 0x5C" "\<not> c < 0x20"
  using assms by (auto simp: word_le_nat_alt word_less_nat_alt)

lemma scan_string_quote_units:
  "scan_string (quote_units v @ 0x22 # rest) = Some (v, rest)"
proof (induction v rule: length_induct)
  case (1 v)
  then have IH: "scan_string (quote_units u @ 0x22 # rest) = Some (u, rest)"
    if "length u < length v" for u
    using that by blast
  show ?case
  proof (cases v)
    case Nil
    then show ?thesis by simp
  next
    case (Cons c cs)
    note scan_string.simps [simp del]
    have ih: "scan_string (quote_units cs @ 0x22 # rest) = Some (cs, rest)"
      using IH [of cs] Cons by simp
    consider (short) "c = 0x08 \<or> c = 0x09 \<or> c = 0x0A \<or> c = 0x0C \<or> c = 0x0D \<or> c = 0x22 \<or> c = 0x5C"
      | (control) "\<not> (c = 0x08 \<or> c = 0x09 \<or> c = 0x0A \<or> c = 0x0C \<or> c = 0x0D \<or> c = 0x22 \<or> c = 0x5C)"
          "c < 0x20"
      | (lead) "\<not> (c = 0x08 \<or> c = 0x09 \<or> c = 0x0A \<or> c = 0x0C \<or> c = 0x0D \<or> c = 0x22 \<or> c = 0x5C)"
          "\<not> c < 0x20" "is_leading_surrogate c"
      | (trail) "\<not> (c = 0x08 \<or> c = 0x09 \<or> c = 0x0A \<or> c = 0x0C \<or> c = 0x0D \<or> c = 0x22 \<or> c = 0x5C)"
          "\<not> c < 0x20" "\<not> is_leading_surrogate c" "is_trailing_surrogate c"
      | (raw) "\<not> (c = 0x08 \<or> c = 0x09 \<or> c = 0x0A \<or> c = 0x0C \<or> c = 0x0D \<or> c = 0x22 \<or> c = 0x5C)"
          "\<not> c < 0x20" "\<not> is_leading_surrogate c" "\<not> is_trailing_surrogate c"
      by blast
    then have "scan_string (quote_units (c # cs) @ 0x22 # rest) = Some (c # cs, rest)"
    proof cases
      case short
      then consider "c = 0x08" | "c = 0x09" | "c = 0x0A" | "c = 0x0C" | "c = 0x0D" | "c = 0x22" | "c = 0x5C"
        by blast
      then show ?thesis
        by cases (simp_all add: ih scan_string_escape escape_unit_def)
    next
      case control
      then show ?thesis
        by (simp add: ih scan_string_UnicodeEscape)
    next
      case lead
      show ?thesis
      proof (cases cs)
        case Nil
        with lead show ?thesis
          by (simp add: scan_string_UnicodeEscape scan_string.simps)
      next
        case d: (Cons d ds)
        show ?thesis
        proof (cases "is_trailing_surrogate d")
          case True
          then have d16: "0xD800 \<le> d"
            by (auto simp: is_trailing_surrogate_def word_le_nat_alt)
          from lead have c16: "0xD800 \<le> c" by (simp add: is_leading_surrogate_def)
          have "scan_string (quote_units ds @ 0x22 # rest) = Some (ds, rest)"
            using IH [of ds] Cons d by simp
          with True lead d show ?thesis
            by (simp add: scan_string_raw surrogate_is_raw [OF c16] surrogate_is_raw [OF d16])
        next
          case False
          with lead d ih show ?thesis
            by (simp add: scan_string_UnicodeEscape)
        qed
      qed
    next
      case trail
      then show ?thesis
        by (simp add: ih scan_string_UnicodeEscape)
    next
      case raw
      then show ?thesis
        by (simp add: ih scan_string_raw)
    qed
    with Cons show ?thesis by simp
  qed
qed

lemma quote_units_input: "quote_units (js ''input'') = js ''input''"
  by (simp add: js_def is_leading_surrogate_def is_trailing_surrogate_def)

lemma JSON_stringify_input_units:
  "JSON_stringify_input v =
     0x7B # 0x22 # js ''input'' @ 0x22 # 0x3A # 0x22 # quote_units v @ [0x22, 0x7D]"
  unfolding JSON_stringify_input_def QuoteJSONString_def quote_units_input
  by (simp add: js_def)

lemma parse_value_input_frame:
  "parse_value (Suc (Suc (Suc m))) (JSON_stringify_input v) =
     Parsed (JObject [(js ''input'', JString v)]) []"
proof -
  have k: "scan_string (js ''input'' @ 0x22 # r) = Some (js ''input'', r)" for r
    using scan_string_quote_units [of "js ''input''" r] by (simp only: quote_units_input)
  have val: "scan_string (quote_units v @ [0x22, 0x7D]) = Some (v, [0x7D])"
    using scan_string_quote_units [of v "[0x7D]"] by simp
  note scan_string.simps [simp del]
  show ?thesis
    unfolding JSON_stringify_input_units
    by (simp add: skip_ws_def is_json_ws_def k val)
qed

lemma JSON_parse_stringify_input:
  "JSON_parse (JSON_stringify_input v) = Inr (JObject [(js ''input'', JString v)])"
proof -
  have "0 < length (JSON_stringify_input v)"
    by (simp add: JSON_stringify_input_def js_def)
  then obtain m where "2 * length (JSON_stringify_input v) = Suc (Suc m)"
    by (metis Suc_pred mult_2 add_Suc add_Suc_right)
  then show ?thesis
    by (simp add: JSON_parse_def parse_value_input_frame skip_ws_def del: parse_value.simps)
qed

section \<open>Submitting while the socket is not open\<close>

text \<open>
  As the specification words it, every submit outside the Open state fails
  with InvalidStateError and keeps the draft. On a CLOSED socket \<^verbatim>\<open>send\<close> throws
  nothing: \<^verbatim>\<open>sendMessage\<close> completes, appends the turn and clears the draft.
\<close>

theorem sendMessage_closed_counterexample:
  "sendMessage \<lparr>input = js ''hi'', messages = [],
                 websocket = Some \<lparr>readyState = CLOSED, transmitted = []\<rparr>\<rparr> =
     (None, \<lparr>input = [], messages = [js ''You: hi''],
             websocket = Some \<lparr>readyState = CLOSED, transmitted = []\<rparr>\<rparr>)"
  by (simp add: sendMessage_def trim_def js_def is_trim_space_def WebSocket_send_def)

text \<open>
  C3, amended. While the socket is not OPEN, a submit puts no frame on the
  connection. While it is CONNECTING and the draft is not blank, \<^verbatim>\<open>send\<close> throws
  InvalidStateError, the exception leaves \<^verbatim>\<open>sendMessage\<close>, and draft, transcript
  and socket are as before.
\<close>

theorem sendMessage_not_open:
  assumes "websocket st = Some ws" and "readyState ws \<noteq> OPEN"
  shows "map_option transmitted (websocket (snd (sendMessage st))) = Some (transmitted ws) \<and>
         (readyState ws = CONNECTING \<and> trim (input st) \<noteq> [] \<longrightarrow>
            sendMessage st = (Some InvalidStateError, st))"
  using assms
  by (cases "readyState ws") (simp_all add: sendMessage_def WebSocket_send_def)

theorem sendMessage_not_open_witness:
  "websocket (ChatApp_mounted\<lparr>input := js ''hi''\<rparr>) =
     Some \<lparr>readyState = CONNECTING, transmitted = []\<rparr> \<and>
   readyState \<lparr>readyState = CONNECTING, transmitted = []\<rparr> \<noteq> OPEN \<and>
   trim (input (ChatApp_mounted\<lparr>input := js ''hi''\<rparr>)) \<noteq> [] \<and>
   map_option transmitted (websocket (snd (sendMessage (ChatApp_mounted\<lparr>input := js ''hi''\<rparr>)))) = Some [] \<and>
   sendMessage (ChatApp_mounted\<lparr>input := js ''hi''\<rparr>) =
     (Some InvalidStateError, ChatApp_mounted\<lparr>input := js ''hi''\<rparr>)"
proof -
  have w: "websocket (ChatApp_mounted\<lparr>input := js ''hi''\<rparr>) =
      Some \<lparr>readyState = CONNECTING, transmitted = []\<rparr>"
    by (simp add: ChatApp_mounted_def ChatApp_initial_def)
  have r: "readyState \<lparr>readyState = CONNECTING, transmitted = []\<rparr> \<noteq> OPEN"
    by simp
  have t: "trim (input (ChatApp_mounted\<lparr>input := js ''hi''\<rparr>)) \<noteq> []"
    by (simp add: trim_def js_def is_trim_space_def)
  from sendMessage_not_open [OF w r] w r t show ?thesis by simp
qed

section \<open>The three effects of a submit\<close>

text \<open>
  The three effects are not one unit: on a CLOSING socket nothing is
  transmitted, yet the turn is appended and the draft is cleared.
\<close>

theorem sendMessage_closing_counterexample:
  "sendMessage \<lparr>input = js ''hello'', messages = [],
                 websocket = Some \<lparr>readyState = CLOSING, transmitted = []\<rparr>\<rparr> =
     (None, \<lparr>input = [], messages = [js ''You: hello''],
             websocket = Some \<lparr>readyState = CLOSING, transmitted = []\<rparr>\<rparr>)"
  by (simp add: sendMessage_def trim_def js_def is_trim_space_def WebSocket_send_def)

text \<open>
  C4, amended. For a draft that is not blank, \<^verbatim>\<open>sendMessage\<close> completes normally
  exactly when the socket exists and is not CONNECTING. When it completes, the
  turn is appended and the draft is cleared; when it throws, the state is
  untouched. The frame is transmitted only on an OPEN socket, so on a CLOSING
  or CLOSED one the append and the clear happen without a transmission.
\<close>

theorem sendMessage_effects:
  assumes "trim (input st) \<noteq> []"
  shows "(fst (sendMessage st) = None \<longleftrightarrow>
            (\<exists>ws. websocket st = Some ws \<and> readyState ws \<noteq> CONNECTING)) \<and>
         (fst (sendMessage st) = None \<longrightarrow>
            messages (snd (sendMessage st)) = messages st @ [js ''You: '' @ input st] \<and>
            input (snd (sendMessage st)) = []) \<and>
         (fst (sendMessage st) \<noteq> None \<longrightarrow> snd (sendMessage st) = st) \<and>
         map_option transmitted (websocket (snd (sendMessage st))) =
           map_option
             (\<lambda>ws. if readyState ws = OPEN
                   then transmitted ws @ [JSON_stringify_input (input st)]
                   else transmitted ws)
             (websocket st)"
proof (cases "websocket st")
  case None
  with assms show ?thesis by (simp add: sendMessage_def)
next
  case (Some ws)
  with assms show ?thesis
    by (cases "readyState ws") (simp_all add: sendMessage_def WebSocket_send_def)
qed

theorem sendMessage_effects_witness:
  "trim (input \<lparr>input = js ''hello'', messages = [],
                  websocket = Some \<lparr>readyState = OPEN, transmitted = []\<rparr>\<rparr>) \<noteq> [] \<and>
   fst (sendMessage \<lparr>input = js ''hello'', messages = [],
                      websocket = Some \<lparr>readyState = OPEN, transmitted = []\<rparr>\<rparr>) = None \<and>
   messages (snd (sendMessage \<lparr>input = js ''hello'', messages = [],
                      websocket = Some \<lparr>readyState = OPEN, transmitted = []\<rparr>\<rparr>)) =
     [js ''You: hello''] \<and>
   input (snd (sendMessage \<lparr>input = js ''hello'', messages = [],
                      websocket = Some \<lparr>readyState = OPEN, transmitted = []\<rparr>\<rparr>)) = [] \<and>
   map_option transmitted
     (websocket (snd (sendMessage \<lparr>input = js ''hello'', messages = [],
                      websocket = Some \<lparr>readyState = OPEN, transmitted = []\<rparr>\<rparr>))) =
     Some [js ''{\"input\":\"hello\"}''] \<and>
   fst (sendMessage \<lparr>input = js ''hello'', messages = [],
                      websocket = Some \<lparr>readyState = CONNECTING, transmitted = []\<rparr>\<rparr>) =
     Some InvalidStateError \<and>
   snd (sendMessage \<lparr>input = js ''hello'', messages = [],
                      websocket = Some \<lparr>readyState = CONNECTING, transmitted = []\<rparr>\<rparr>) =
     \<lparr>input = js ''hello'', messages = [],
       websocket = Some \<lparr>readyState = CONNECTING, transmitted = []\<rparr>\<rparr>"
proof -
  let ?o = "\<lparr>input = js ''hello'', messages = [],
              websocket = Some \<lparr>readyState = OPEN, transmitted = []\<rparr>\<rparr>"
  let ?c = "\<lparr>input = js ''hello'', messages = [],
              websocket = Some \<lparr>readyState = CONNECTING, transmitted = []\<rparr>\<rparr>"
  have t: "trim (js ''hello'') \<noteq> []"
    by (simp add: trim_def js_def is_trim_space_def)
  then have to: "trim (input ?o) \<noteq> []" and tc: "trim (input ?c) \<noteq> []" by simp_all
  have f: "JSON_stringify_input (js ''hello'') = js ''{\"input\":\"hello\"}''"
    by (simp add: JSON_stringify_input_def QuoteJSONString_def js_def
          is_leading_surrogate_def is_trailing_surrogate_def)
  have e: "fst (sendMessage ?c) = Some InvalidStateError"
    by (simp add: sendMessage_def WebSocket_send_def t)
  from sendMessage_effects [OF to] sendMessage_effects [OF tc] to f e
  show ?thesis by (simp add: js_def)
qed

section \<open>What a submit sends and stores\<close>

text \<open>
  The draft is trimmed only for the test: the frame and the stored turn carry
  it as typed, here with its two leading and two trailing spaces.
\<close>

theorem sendMessage_untrimmed_counterexample:
  "trim (js ''  hi  '') = js ''hi'' \<and>
   sendMessage \<lparr>input = js ''  hi  '', messages = [],
                 websocket = Some \<lparr>readyState = OPEN, transmitted = []\<rparr>\<rparr> =
     (None, \<lparr>input = [], messages = [js ''You:   hi  ''],
             websocket = Some \<lparr>readyState = OPEN,
                                transmitted = [js ''{\"input\":\"  hi  \"}'']\<rparr>\<rparr>) \<and>
   js ''You:   hi  '' \<noteq> js ''You: '' @ trim (js ''  hi  '') \<and>
   js ''{\"input\":\"  hi  \"}'' \<noteq> JSON_stringify_input (trim (js ''  hi  ''))"
  by (simp add: sendMessage_def trim_def js_def is_trim_space_def WebSocket_send_def
        JSON_stringify_input_def QuoteJSONString_def
        is_leading_surrogate_def is_trailing_surrogate_def)

text \<open>
  C6, amended. For a draft that is not blank and an OPEN socket, the frame put
  on the connection is \<^verbatim>\<open>JSON.stringify({ input })\<close> of the draft as typed, which
  parses back to that draft, and the turn appended to the transcript is
  \<^verbatim>\<open>You: \<close> followed by the draft as typed; then the draft is cleared.
\<close>

theorem sendMessage_open:
  assumes "trim (input st) \<noteq> []" and "websocket st = Some ws" and "readyState ws = OPEN"
  shows "sendMessage st =
           (None, st\<lparr>websocket :=
                        Some (ws\<lparr>transmitted :=
                                    transmitted ws @ [JSON_stringify_input (input st)]\<rparr>),
                      messages := messages st @ [js ''You: '' @ input st],
                      input := []\<rparr>) \<and>
         JSON_parse (JSON_stringify_input (input st)) =
           Inr (JObject [(js ''input'', JString (input st))])"
  using assms
  by (simp add: sendMessage_def WebSocket_send_def JSON_parse_stringify_input)

theorem sendMessage_open_witness:
  "trim (js '' hello '') \<noteq> [] \<and>
   sendMessage \<lparr>input = js '' hello '', messages = [],
                 websocket = Some \<lparr>readyState = OPEN, transmitted = []\<rparr>\<rparr> =
     (None, \<lparr>input = [], messages = [js ''You:  hello ''],
             websocket = Some \<lparr>readyState = OPEN,
                                transmitted = [js ''{\"input\":\" hello \"}'']\<rparr>\<rparr>) \<and>
   JSON_parse (js ''{\"input\":\" hello \"}'') =
     Inr (JObject [(js ''input'', JString (js '' hello ''))])"
proof -
  let ?st = "\<lparr>input = js '' hello '', messages = [],
               websocket = Some \<lparr>readyState = OPEN, transmitted = []\<rparr>\<rparr>"
  have t: "trim (input ?st) \<noteq> []"
    by (simp add: trim_def js_def is_trim_space_def)
  have w: "websocket ?st = Some \<lparr>readyState = OPEN, transmitted = []\<rparr>"
    by simp
  have r: "readyState \<lparr>readyState = OPEN, transmitted = []\<rparr> = OPEN"
    by simp
  have f: "JSON_stringify_input (js '' hello '') = js ''{\"input\":\" hello \"}''"
    by (simp add: JSON_stringify_input_def QuoteJSONString_def js_def
          is_leading_surrogate_def is_trailing_surrogate_def)
  from sendMessage_open [OF t w r] t f show ?thesis
    by (simp add: js_def)
qed

section \<open>A frame that does not parse\<close>

lemma JSON_parse_error: "JSON_parse p = Inl e \<Longrightarrow> e = SyntaxError"
  by (auto simp: JSON_parse_def split: parsed.splits if_splits)

text \<open>
  The handler has no \<^verbatim>\<open>try\<close>: for the payload \<^verbatim>\<open>not-json\<close> the SyntaxError of
  \<^verbatim>\<open>JSON.parse\<close> leaves it.
\<close>

theorem onmessage_not_json_counterexample:
  "\<forall>N. onmessage N ChatApp_mounted (js ''not-json'') =
         (Some SyntaxError, Mounted ChatApp_mounted)"
proof -
  have "JSON_parse (js ''not-json'') = Inl SyntaxError" by code_simp
  then show ?thesis by (simp add: onmessage_def)
qed

text \<open>
  C2, amended. For every inbound frame whose payload fails to parse, the
  SyntaxError of \<^verbatim>\<open>JSON.parse\<close> propagates out of the handler; no turn is
  appended, and the transcript and the rest of the component state are
  unchanged.
\<close>

theorem onmessage_parse_failure:
  assumes "JSON_parse payload = Inl e"
  shows "onmessage N st payload = (Some SyntaxError, Mounted st)"
  using assms JSON_parse_error [OF assms] by (simp add: onmessage_def)

theorem onmessage_parse_failure_witness:
  "JSON_parse (js ''{\"answer\":'') = Inl SyntaxError \<and>
   (\<forall>N. onmessage N ChatApp_mounted (js ''{\"answer\":'') =
          (Some SyntaxError, Mounted ChatApp_mounted))"
proof -
  have p: "JSON_parse (js ''{\"answer\":'') = Inl SyntaxError"
    by code_simp
  from onmessage_parse_failure [OF p] p show ?thesis by simp
qed

section \<open>A frame that parses\<close>




text \<open>
  The conversion throws for an object with a member named \<^verbatim>\<open>toString\<close>, and
  for an array that holds one. Then the handler returns normally and the
  component is unmounted when React renders.
\<close>

lemma onmessage_conversion_throws:
  assumes "JSON_parse payload = Inr d" and "get_answer d = Inr a"
    and "ToBoolean N a" and "ToString N a = Inl e"
  shows "onmessage N st payload = (None, Unmounted)"
  using assms by (simp add: onmessage_def)

lemma onmessage_toString_member:
  "JSON_parse (js ''{\"answer\":{\"toString\":1}}'') =
     Inr (JObject [(js ''answer'', JObject [(js ''toString'', JNumber (js ''1''))])]) \<and>
   (\<forall>N st. onmessage N st (js ''{\"answer\":{\"toString\":1}}'') = (None, Unmounted))"
proof -
  have p: "JSON_parse (js ''{\"answer\":{\"toString\":1}}'') =
      Inr (JObject [(js ''answer'', JObject [(js ''toString'', JNumber (js ''1''))])])"
    by code_simp
  then show ?thesis by (simp add: onmessage_def js_def)
qed

section \<open>The transcript and the list shown\<close>

text \<open>
  Each handler leaves the transcript as it is or appends one entry at its end:
  entries are never reordered, removed or changed.
\<close>

lemma sendMessage_messages:
  "messages (snd (sendMessage st)) = messages st \<or>
   messages (snd (sendMessage st)) = messages st @ [js ''You: '' @ input st]"
  by (simp add: sendMessage_def Let_def split: option.splits sum.splits)

lemma onmessage_messages:
  "snd (onmessage N st d) = Unmounted \<or>
   snd (onmessage N st d) = Mounted st \<or>
   (\<exists>m. snd (onmessage N st d) = Mounted (st\<lparr>messages := messages st @ [m]\<rparr>))"
  by (auto simp: onmessage_def split: sum.splits)

lemma startsWith_iff: "startsWith s p \<longleftrightarrow> (\<exists>t. s = p @ t)"
proof
  assume "startsWith s p"
  then have "s = p @ drop (length p) s"
    by (metis append_take_drop_id startsWith_def)
  then show "\<exists>t. s = p @ t" ..
next
  assume "\<exists>t. s = p @ t"
  then show "startsWith s p" by (auto simp: startsWith_def)
qed

lemma length_You: "length (js ''You: '') = 5"
  by (simp add: js_def)

lemma js_append: "js (a @ b) = js a @ js b"
  by (simp add: js_def)

text \<open>
  The key of an element (line 85) is made of the text of the message alone.
  Two entries of the transcript get the same key exactly when they are the
  same string.
\<close>

lemma key_user:
  "key (renderMessageAsMarkdown marked sanitize (js ''You: '' @ t)) =
     js ''user-<b>You:</b><br />'' @ t"
  by (simp add: renderMessageAsMarkdown_def Let_def startsWith_def substring_def length_You
        js_append [symmetric])

lemma key_server:
  "\<not> startsWith msg (js ''You: '') \<Longrightarrow>
     key (renderMessageAsMarkdown marked sanitize msg) = js ''server-<b>Nydas:</b><br />'' @ msg"
  by (simp add: renderMessageAsMarkdown_def Let_def js_append [symmetric])

lemma key_eq_iff:
  "key (renderMessageAsMarkdown marked sanitize m) =
   key (renderMessageAsMarkdown marked sanitize m') \<longleftrightarrow> m = m'"
proof
  assume k: "key (renderMessageAsMarkdown marked sanitize m) =
      key (renderMessageAsMarkdown marked sanitize m')"
  have us: "js ''user-<b>You:</b><br />'' @ a \<noteq> js ''server-<b>Nydas:</b><br />'' @ b" for a b
    by (simp add: js_def)
  show "m = m'"
  proof (cases "startsWith m (js ''You: '')")
    case True
    then obtain t where t: "m = js ''You: '' @ t" by (auto simp: startsWith_iff)
    show ?thesis
    proof (cases "startsWith m' (js ''You: '')")
      case True
      then obtain t' where "m' = js ''You: '' @ t'" by (auto simp: startsWith_iff)
      with k t show ?thesis by (simp add: key_user)
    next
      case False
      with k t us show ?thesis by (simp add: key_user key_server)
    qed
  next
    case False
    show ?thesis
    proof (cases "startsWith m' (js ''You: '')")
      case True
      then obtain t' where "m' = js ''You: '' @ t'" by (auto simp: startsWith_iff)
      with k False us [of t' m] show ?thesis by (simp add: key_user key_server)
    next
      case f: False
      with k False show ?thesis by (simp add: key_server)
    qed
  qed
next
  assume "m = m'"
  then show "key (renderMessageAsMarkdown marked sanitize m) =
      key (renderMessageAsMarkdown marked sanitize m')" by simp
qed

lemma keys_distinct_iff:
  "distinct (map key (ChatApp_view marked sanitize st)) \<longleftrightarrow> distinct (messages st)"
proof -
  have "inj (\<lambda>m. key (renderMessageAsMarkdown marked sanitize m))"
    by (rule injI) (simp add: key_eq_iff)
  then have "inj_on (\<lambda>m. key (renderMessageAsMarkdown marked sanitize m)) (set (rev (messages st)))"
    by (rule inj_on_subset) simp
  then show ?thesis
    by (simp add: ChatApp_view_def distinct_map comp_def)
qed

text \<open>
  C7. The transcript lists the turns in the order they were appended, and the
  list shown is its reverse. The first half holds; the second fails where a
  message repeats. The server answers \<^verbatim>\<open>ok\<close>, \<^verbatim>\<open>ok\<close> and \<^verbatim>\<open>x\<close>: the
  transcript holds the three strings in that order, and the children handed to
  React for it carry one key twice, before and after the third answer. React
  asks for keys that differ among siblings and matches the children of two
  renderings by them.
\<close>

theorem repeated_answer_repeats_key:
  "JSON_parse (js ''{\"answer\":\"ok\"}'') = Inr (JObject [(js ''answer'', JString (js ''ok''))]) \<and>
   JSON_parse (js ''{\"answer\":\"x\"}'') = Inr (JObject [(js ''answer'', JString (js ''x''))]) \<and>
   (\<forall>N. onmessage N ChatApp_mounted (js ''{\"answer\":\"ok\"}'') =
          (None, Mounted (ChatApp_mounted\<lparr>messages := [js ''ok'']\<rparr>)) \<and>
        onmessage N (ChatApp_mounted\<lparr>messages := [js ''ok'']\<rparr>) (js ''{\"answer\":\"ok\"}'') =
          (None, Mounted (ChatApp_mounted\<lparr>messages := [js ''ok'', js ''ok'']\<rparr>)) \<and>
        onmessage N (ChatApp_mounted\<lparr>messages := [js ''ok'', js ''ok'']\<rparr>)
            (js ''{\"answer\":\"x\"}'') =
          (None, Mounted (ChatApp_mounted\<lparr>messages := [js ''ok'', js ''ok'', js ''x'']\<rparr>))) \<and>
   (\<forall>marked sanitize.
      map key (ChatApp_view marked sanitize
                 (ChatApp_mounted\<lparr>messages := [js ''ok'', js ''ok'']\<rparr>)) =
        [js ''server-<b>Nydas:</b><br />ok'', js ''server-<b>Nydas:</b><br />ok''] \<and>
      map key (ChatApp_view marked sanitize
                 (ChatApp_mounted\<lparr>messages := [js ''ok'', js ''ok'', js ''x'']\<rparr>)) =
        [js ''server-<b>Nydas:</b><br />x'', js ''server-<b>Nydas:</b><br />ok'',
         js ''server-<b>Nydas:</b><br />ok''])"
proof -
  have p: "JSON_parse (js ''{\"answer\":\"ok\"}'') =
      Inr (JObject [(js ''answer'', JString (js ''ok''))])"
    by code_simp
  have q: "JSON_parse (js ''{\"answer\":\"x\"}'') =
      Inr (JObject [(js ''answer'', JString (js ''x''))])"
    by code_simp
  have m: "messages ChatApp_mounted = []"
    by (simp add: ChatApp_mounted_def ChatApp_initial_def)
  have o: "\<not> startsWith (js ''ok'') (js ''You: '')" "\<not> startsWith (js ''x'') (js ''You: '')"
    by (simp_all add: startsWith_def js_def)
  have k: "key (renderMessageAsMarkdown marked sanitize (js ''ok'')) =
        js ''server-<b>Nydas:</b><br />ok''"
      "key (renderMessageAsMarkdown marked sanitize (js ''x'')) =
        js ''server-<b>Nydas:</b><br />x''" for marked sanitize
    using o by (simp_all add: key_server js_append [symmetric])
  show ?thesis
    by (simp add: p q m k onmessage_def ChatApp_view_def) (simp add: js_def)
qed

section \<open>Rendering and the two libraries\<close>

text \<open>
  Whatever the functions \<open>marked\<close> and \<open>sanitize\<close> are, the markup set as inner
  HTML is a value of \<open>sanitize\<close>: nothing is added to it after sanitising.
  Typing into the input field changes nothing in the elements returned. What
  the sanitised markup contains is a matter of the library.
\<close>

lemma innerHTML_sanitized:
  "innerHTML (renderMessageAsMarkdown marked sanitize msg) \<in> range sanitize"
  by (simp add: renderMessageAsMarkdown_def Let_def)

lemma view_onChange:
  "ChatApp_view marked sanitize (onChange st v) = ChatApp_view marked sanitize st"
  by (simp add: ChatApp_view_def onChange_def)

section \<open>Who said it is read off the text\<close>

text \<open>
  C10. A stored string is rendered as a user turn exactly when it starts with
  the five code units \<^verbatim>\<open>You: \<close>: then the label is \<^verbatim>\<open>You:\<close> and the prefix is
  stripped from the text; every other string is rendered under the label
  \<^verbatim>\<open>Nydas:\<close>. The transcript holds strings only, so an answer of the server
  that starts with \<^verbatim>\<open>You: \<close> is rendered as a user turn as well.
\<close>

theorem render_by_prefix:
  "(startsWith msg (js ''You: '') \<longleftrightarrow> (\<exists>t. msg = js ''You: '' @ t)) \<and>
   renderMessageAsMarkdown marked sanitize (js ''You: '' @ t) =
     \<lparr>className = js ''box3 sb13'',
      key = js ''user-<b>You:</b><br />'' @ t,
      margin = js ''5px 15px'',
      alignSelf = js ''flex-end'',
      innerHTML = sanitize (marked (js ''<b>You:</b><br />'' @ t))\<rparr> \<and>
   (\<not> startsWith msg (js ''You: '') \<longrightarrow>
      renderMessageAsMarkdown marked sanitize msg =
        \<lparr>className = js ''box3 sb14'',
         key = js ''server-<b>Nydas:</b><br />'' @ msg,
         margin = js ''5px 0 5px 15px'',
         alignSelf = js ''flex-start'',
         innerHTML = sanitize (marked (js ''<b>Nydas:</b><br />'' @ msg))\<rparr>) \<and>
   (JSON_parse payload = Inr (JObject kvs) \<and>
    map_of (rev kvs) (js ''answer'') = Some (JString (js ''You: '' @ t)) \<longrightarrow>
      onmessage N st payload =
        (None, Mounted (st\<lparr>messages := messages st @ [js ''You: '' @ t]\<rparr>)) \<and>
      ChatApp_view marked sanitize (st\<lparr>messages := messages st @ [js ''You: '' @ t]\<rparr>) =
        renderMessageAsMarkdown marked sanitize (js ''You: '' @ t) #
        ChatApp_view marked sanitize st)"
proof -
  have u: "startsWith (js ''You: '' @ t) (js ''You: '')"
    by (simp add: startsWith_def)
  have d: "substring (js ''You: '' @ t) 5 = t"
    by (simp add: substring_def length_You)
  have k: "js ''user-'' @ js ''<b>You:</b><br />'' @ t = js ''user-<b>You:</b><br />'' @ t"
    "js ''server-'' @ js ''<b>Nydas:</b><br />'' @ msg = js ''server-<b>Nydas:</b><br />'' @ msg"
    by (simp_all add: js_def)
  have n: "js ''You: '' \<noteq> []"
    by (simp add: js_def)
  show ?thesis
    by (simp add: startsWith_iff [symmetric] u d k n renderMessageAsMarkdown_def Let_def
          onmessage_def ChatApp_view_def)
qed

theorem render_by_prefix_witness:
  "\<not> startsWith (js ''hi there'') (js ''You: '') \<and>
   (\<forall>marked sanitize.
      renderMessageAsMarkdown marked sanitize (js ''hi there'') =
        \<lparr>className = js ''box3 sb14'',
         key = js ''server-<b>Nydas:</b><br />hi there'',
         margin = js ''5px 0 5px 15px'',
         alignSelf = js ''flex-start'',
         innerHTML = sanitize (marked (js ''<b>Nydas:</b><br />hi there''))\<rparr>) \<and>
   startsWith (js ''You: hello'') (js ''You: '') \<and>
   (\<forall>marked sanitize.
      renderMessageAsMarkdown marked sanitize (js ''You: hello'') =
        \<lparr>className = js ''box3 sb13'',
         key = js ''user-<b>You:</b><br />hello'',
         margin = js ''5px 15px'',
         alignSelf = js ''flex-end'',
         innerHTML = sanitize (marked (js ''<b>You:</b><br />hello''))\<rparr>) \<and>
   JSON_parse (js ''{\"answer\":\"You: sure\"}'') =
     Inr (JObject [(js ''answer'', JString (js ''You: sure''))]) \<and>
   (\<forall>N. onmessage N ChatApp_mounted (js ''{\"answer\":\"You: sure\"}'') =
          (None, Mounted (ChatApp_mounted\<lparr>messages := [js ''You: sure'']\<rparr>))) \<and>
   (\<forall>marked sanitize.
      ChatApp_view marked sanitize (ChatApp_mounted\<lparr>messages := [js ''You: sure'']\<rparr>) =
        [\<lparr>className = js ''box3 sb13'',
          key = js ''user-<b>You:</b><br />sure'',
          margin = js ''5px 15px'',
          alignSelf = js ''flex-end'',
          innerHTML = sanitize (marked (js ''<b>You:</b><br />sure''))\<rparr>])"
proof -
  have s: "\<not> startsWith (js ''hi there'') (js ''You: '')"
    by (simp add: startsWith_def js_def)
  have p: "JSON_parse (js ''{\"answer\":\"You: sure\"}'') =
      Inr (JObject [(js ''answer'', JString (js ''You: sure''))])"
    by code_simp
  have a: "map_of (rev [(js ''answer'', JString (js ''You: sure''))]) (js ''answer'') =
      Some (JString (js ''You: '' @ js ''sure''))"
    by (simp add: js_def)
  have m: "messages ChatApp_mounted = []"
    by (simp add: ChatApp_mounted_def ChatApp_initial_def)
  have v: "ChatApp_view marked sanitize ChatApp_mounted = []" for marked sanitize
    by (simp add: ChatApp_view_def m)
  note r = render_by_prefix [of "js ''hi there''" _ _ "js ''hello''"]
  note r' = render_by_prefix [of "js ''hi there''" _ _ "js ''sure''"
      "js ''{\"answer\":\"You: sure\"}''" "[(js ''answer'', JString (js ''You: sure''))]" _ ChatApp_mounted]
  have 1: "renderMessageAsMarkdown marked sanitize (js ''hi there'') =
        \<lparr>className = js ''box3 sb14'',
         key = js ''server-<b>Nydas:</b><br />hi there'',
         margin = js ''5px 0 5px 15px'',
         alignSelf = js ''flex-start'',
         innerHTML = sanitize (marked (js ''<b>Nydas:</b><br />hi there''))\<rparr>" for marked sanitize
    using r [of marked sanitize] s by (simp add: js_append [symmetric])
  have 2: "renderMessageAsMarkdown marked sanitize (js ''You: hello'') =
        \<lparr>className = js ''box3 sb13'',
         key = js ''user-<b>You:</b><br />hello'',
         margin = js ''5px 15px'',
         alignSelf = js ''flex-end'',
         innerHTML = sanitize (marked (js ''<b>You:</b><br />hello''))\<rparr>" for marked sanitize
    using r [of marked sanitize] by (simp add: js_append [symmetric])
  have 3: "onmessage N ChatApp_mounted (js ''{\"answer\":\"You: sure\"}'') =
          (None, Mounted (ChatApp_mounted\<lparr>messages := [js ''You: sure'']\<rparr>))" for N
    using r' [of id id N] p a m by (simp add: js_append [symmetric])
  have 4: "ChatApp_view marked sanitize (ChatApp_mounted\<lparr>messages := [js ''You: sure'']\<rparr>) =
        [\<lparr>className = js ''box3 sb13'',
          key = js ''user-<b>You:</b><br />sure'',
          margin = js ''5px 15px'',
          alignSelf = js ''flex-end'',
          innerHTML = sanitize (marked (js ''<b>You:</b><br />sure''))\<rparr>]" for marked sanitize
    using r' [of marked sanitize undefined] p a m v by (simp add: js_append [symmetric])
  have 5: "startsWith (js ''You: hello'') (js ''You: '')"
    by (simp add: startsWith_def js_def)
  from s 1 2 3 4 5 p show ?thesis by blast
qed

end
